theory Spec2Isabelle
  imports Main
begin

section \<open>Values of package eventhorizon used by the repositories\<close>

text \<open>
  Modelled from the spec: the declarations of package \<^verbatim>\<open>eventhorizon\<close> (\<^verbatim>\<open>eh.UUID\<close>,
  \<^verbatim>\<open>eh.RepoError\<close>, the sentinel errors, \<^verbatim>\<open>eh.Versionable\<close>, \<^verbatim>\<open>eh.MinVersionFromContext\<close>,
  \<^verbatim>\<open>eh.NamespaceFromContext\<close>) are not among the source files; only their uses in
  \<^verbatim>\<open>repo/version/repo.go\<close> and \<^verbatim>\<open>storage/mongodb/readrepository.go\<close> are. They are
  reconstructed here from those uses.

  A Go \<^verbatim>\<open>error\<close> is either a sentinel (compared with \<^verbatim>\<open>==\<close>), one of the two errors of
  package \<^verbatim>\<open>context\<close>, some other error, or the struct \<^verbatim>\<open>eh.RepoError{Err, Namespace}\<close>.
  A nil error is \<open>None\<close> of \<open>error option\<close>.
\<close>

type_synonym uuid = string

datatype error =
    ErrModelNotFound
  | ErrIncorrectModelVersion
  | ErrModelHasNoVersion
  | ErrModelNotSet
  | Canceled
  | DeadlineExceeded
  | OtherError string
  | RepoError error string

text \<open>
  A read model is an \<^verbatim>\<open>interface{}\<close> value. Its dynamic type either implements
  \<^verbatim>\<open>eh.Versionable\<close> (it has \<^verbatim>\<open>AggregateVersion() int\<close>) or it does not. A nil interface
  is \<open>None\<close> of \<open>'a model option\<close>. Go's \<^verbatim>\<open>int\<close> is only compared here, never computed
  with, so it is an \<open>int\<close>.
\<close>

datatype 'a model = Versioned 'a int | Unversioned 'a

text \<open>The type assertion \<^verbatim>\<open>model.(eh.Versionable)\<close> followed by \<^verbatim>\<open>AggregateVersion()\<close>:
  \<open>None\<close> when the assertion fails (also on a nil interface).\<close>

fun versionable :: "'a model option \<Rightarrow> int option" where
  "versionable (Some (Versioned p v)) = Some v"
| "versionable (Some (Unversioned p)) = None"
| "versionable None = None"

text \<open>The two results of a Go \<^verbatim>\<open>Find\<close>: \<^verbatim>\<open>(interface{}, error)\<close>.\<close>

type_synonym 'a result = "'a model option \<times> error option"

section \<open>The call context and the wrapped repository\<close>

text \<open>
  What \<^verbatim>\<open>Repo.Find\<close> reads from its \<^verbatim>\<open>context.Context\<close>:
  \<^item> \<open>min_version\<close>: the pair returned by \<^verbatim>\<open>eh.MinVersionFromContext(ctx)\<close>;
  \<^item> \<open>deadline_set\<close>: the second result of \<^verbatim>\<open>ctx.Deadline()\<close>;
  \<^item> \<open>namespace\<close>: \<^verbatim>\<open>eh.NamespaceFromContext(ctx)\<close>;
  \<^item> \<open>done_first n\<close>: in the \<open>n\<close>-th \<^verbatim>\<open>select\<close> of the call (counted from 0), the case
    \<^verbatim>\<open><-ctx.Done()\<close> is taken, that is the context ended during that backoff wait
    before the timer \<^verbatim>\<open>time.After(delay.Duration())\<close> fired;
  \<^item> \<open>ended\<close>: why the context ended, which \<^verbatim>\<open>ctx.Err()\<close> reports once Done is closed.
\<close>

datatype ctx_end = CtxCanceled | CtxDeadlineExceeded

fun ctx_Err :: "ctx_end \<Rightarrow> error" where
  "ctx_Err CtxCanceled = Canceled"
| "ctx_Err CtxDeadlineExceeded = DeadlineExceeded"

record ctx =
  min_version :: "int \<times> bool"
  deadline_set :: bool
  namespace :: string
  done_first :: "nat \<Rightarrow> bool"
  ended :: ctx_end

text \<open>
  The state one call of \<^verbatim>\<open>Repo.Find\<close> threads through: how many times the wrapped
  repository's \<^verbatim>\<open>Find\<close> has been called, and how many backoff waits have been entered
  (the attempt counter of \<^verbatim>\<open>delay\<close>).
\<close>

record world =
  calls :: nat
  waits :: nat

text \<open>
  The wrapped repository \<^verbatim>\<open>r.ReadWriteRepo\<close> is an interface value whose implementation
  and whose contents (written by other parties between two calls) are outside the code:
  it is given by the answer of its \<open>n\<close>-th \<^verbatim>\<open>Find\<close>, for every \<open>n\<close>. Any pair of results
  is possible, also a model together with an error.
\<close>

type_synonym 'a ReadWriteRepo = "nat \<Rightarrow> ctx \<Rightarrow> uuid \<Rightarrow> 'a result"

definition ReadWriteRepo_Find ::
  "'a ReadWriteRepo \<Rightarrow> ctx \<Rightarrow> uuid \<Rightarrow> world \<Rightarrow> 'a result \<times> world" where
  "ReadWriteRepo_Find r c ident w = (r (calls w) c ident, w\<lparr>calls := calls w + 1\<rparr>)"

section \<open>repo/version/repo.go\<close>

subsection \<open>findMinVersion\<close>

definition findMinVersion ::
  "'a ReadWriteRepo \<Rightarrow> ctx \<Rightarrow> uuid \<Rightarrow> int \<Rightarrow> world \<Rightarrow> 'a result \<times> world" where
  "findMinVersion r c ident minVersion w =
    (let ((model, err), w1) = ReadWriteRepo_Find r c ident w in
     if err \<noteq> None then ((None, err), w1)
     else (case versionable model of
        None \<Rightarrow> ((None, Some (RepoError ErrModelHasNoVersion (namespace c))), w1)
      | Some v \<Rightarrow>
          if v < minVersion
          then ((None, Some (RepoError ErrIncorrectModelVersion (namespace c))), w1)
          else ((model, None), w1)))"

subsection \<open>Find\<close>

text \<open>The condition of the first branch of the loop:
  \<^verbatim>\<open>rrErr, ok := err.(eh.RepoError); ok && (rrErr.Err == eh.ErrIncorrectModelVersion || rrErr.Err == eh.ErrModelNotFound)\<close>.\<close>

fun retryable :: "error option \<Rightarrow> bool" where
  "retryable (Some (RepoError e ns)) = (e = ErrIncorrectModelVersion \<or> e = ErrModelNotFound)"
| "retryable _ = False"

text \<open>The \<^verbatim>\<open>return\<close> statements of \<^verbatim>\<open>Find\<close>, by source line: 51, 65, 68, 73, 79, 84.\<close>

datatype exit = PassThrough | RealError | Success | NoDeadline | Cancelled | Fallback

text \<open>What one run of a loop body does: return from the function, go round again,
  or leave the loop for the statement after it.\<close>

datatype 'r outcome = Return 'r | Continue world | Break world

text \<open>One iteration of \<^verbatim>\<open>for { ... }\<close>, lines 59 to 80.\<close>

definition loop_body ::
  "'a ReadWriteRepo \<Rightarrow> ctx \<Rightarrow> uuid \<Rightarrow> int \<Rightarrow> world \<Rightarrow> ('a result \<times> exit \<times> world) outcome" where
  "loop_body r c ident minVersion w =
    (let ((model, err), w1) = findMinVersion r c ident minVersion w in
     if retryable err then
       (if \<not> deadline_set c then Return ((model, err), NoDeadline, w1)
        else if done_first c (waits w1)
          then Return ((None, Some (ctx_Err (ended c))), Cancelled, w1\<lparr>waits := waits w1 + 1\<rparr>)
          else Continue (w1\<lparr>waits := waits w1 + 1\<rparr>))
     else if err \<noteq> None then Return ((None, err), RealError, w1)
     else Return ((model, None), Success, w1))"

text \<open>A Go \<^verbatim>\<open>for\<close> without condition. It may run forever: then the value is \<open>None\<close>.\<close>

partial_function (option) for_loop ::
  "(world \<Rightarrow> 'r outcome) \<Rightarrow> world \<Rightarrow> ('r + world) option" where
  "for_loop body w =
    (case body w of
       Return x \<Rightarrow> Some (Inl x)
     | Continue w1 \<Rightarrow> for_loop body w1
     | Break w1 \<Rightarrow> Some (Inr w1))"

definition Find ::
  "'a ReadWriteRepo \<Rightarrow> ctx \<Rightarrow> uuid \<Rightarrow> world \<Rightarrow> ('a result \<times> exit \<times> world) option" where
  "Find r c ident w =
    (let (minVersion, ok) = min_version c in
     if \<not> ok \<or> minVersion < 1
     then (let (res, w1) = ReadWriteRepo_Find r c ident w in Some (res, PassThrough, w1))
     else (case for_loop (loop_body r c ident minVersion) w of
        None \<Rightarrow> None
      | Some (Inl x) \<Rightarrow> Some x
      | Some (Inr w1) \<Rightarrow>
          Some ((None, Some (RepoError ErrModelNotFound (namespace c))), Fallback, w1)))"

subsection \<open>Repository: walking the chain of decorators\<close>

text \<open>
  An \<^verbatim>\<open>eh.ReadRepo\<close> interface value: nil, a \<^verbatim>\<open>*version.Repo\<close>, or a value of any other
  type; the last two have a \<^verbatim>\<open>Parent()\<close>, which is nil for a concrete store. \<open>'a\<close>
  identifies the instance. A value of this type is a finite chain without cycles.
\<close>

datatype 'a ReadRepo = NilRepo | VersionRepo 'a "'a ReadRepo" | OtherRepo 'a "'a ReadRepo"

fun Parent :: "'a ReadRepo \<Rightarrow> 'a ReadRepo" where
  "Parent (VersionRepo a p) = p"
| "Parent (OtherRepo a p) = p"
| "Parent NilRepo = NilRepo"

text \<open>The result \<^verbatim>\<open>*Repo\<close> is \<open>None\<close> for nil, else the \<^verbatim>\<open>Repo\<close> found.\<close>

fun Repository :: "'a ReadRepo \<Rightarrow> 'a ReadRepo option" where
  "Repository NilRepo = None"
| "Repository (VersionRepo a p) = Some (VersionRepo a p)"
| "Repository (OtherRepo a p) = Repository (Parent (OtherRepo a p))"

fun is_version_repo :: "'a ReadRepo \<Rightarrow> bool" where
  "is_version_repo (VersionRepo a p) = True"
| "is_version_repo _ = False"

section \<open>storage/mongodb/readrepository.go\<close>

text \<open>
  The MongoDB session behind the repository is the driver's, not this code's. What
  \<^verbatim>\<open>sess.DB(r.db).C(r.collection).FindId(id).One(model)\<close> does is given by the documents
  of the collection and by a fault of the storage, if there is one (a lost connection,
  a timeout): with a fault every query fails with it; without one, the query fails with
  the driver's \<^verbatim>\<open>mgo.ErrNotFound\<close> when there is no document for the id, and else fills
  \<^verbatim>\<open>model\<close> from the document.
\<close>

datatype mgo_error = MgoErrNotFound | MgoFault string

record 'a session =
  documents :: "uuid \<rightharpoonup> 'a"
  fault :: "string option"

definition One :: "'a session \<Rightarrow> uuid \<Rightarrow> 'a \<Rightarrow> mgo_error option \<times> 'a" where
  "One sess ident model =
    (case fault sess of
       Some msg \<Rightarrow> (Some (MgoFault msg), model)
     | None \<Rightarrow> (case documents sess ident of
          None \<Rightarrow> (Some MgoErrNotFound, model)
        | Some d \<Rightarrow> (None, d)))"

record 'a ReadRepository =
  session :: "'a session"
  factory :: "(unit \<Rightarrow> 'a) option"

definition ReadRepository_Find ::
  "'a ReadRepository \<Rightarrow> uuid \<Rightarrow> 'a option \<times> error option" where
  "ReadRepository_Find r ident =
    (case factory r of
       None \<Rightarrow> (None, Some ErrModelNotSet)
     | Some f \<Rightarrow>
        (let model = f ();
             (err, model1) = One (session r) ident model
         in if err \<noteq> None then (None, Some ErrModelNotFound) else (Some model1, None)))"

section \<open>Worlds and example inputs\<close>

text \<open>The world after \<open>k\<close> rounds of the loop that each called the wrapped repository
  once and waited once.\<close>

definition advance :: "world \<Rightarrow> nat \<Rightarrow> world" where
  "advance w k = w\<lparr>calls := calls w + k, waits := waits w + k\<rparr>"

definition world0 :: world where
  "world0 = \<lparr>calls = 0, waits = 0\<rparr>"

text \<open>A context asking for version 3 with a deadline that ends during the second wait.\<close>

definition example_ctx :: ctx where
  "example_ctx = \<lparr>min_version = (3, True), deadline_set = True, namespace = ''invitations'',
     done_first = (\<lambda>n. 1 \<le> n), ended = CtxDeadlineExceeded\<rparr>"

text \<open>The same request without a deadline, and a context with no minimum version.\<close>

definition no_deadline_ctx :: ctx where
  "no_deadline_ctx = \<lparr>min_version = (3, True), deadline_set = False, namespace = ''invitations'',
     done_first = (\<lambda>n. False), ended = CtxCanceled\<rparr>"

definition plain_ctx :: ctx where
  "plain_ctx = \<lparr>min_version = (0, False), deadline_set = False, namespace = ''invitations'',
     done_first = (\<lambda>n. False), ended = CtxCanceled\<rparr>"

text \<open>A wrapped repository that has no model at the first call and the model at
  version 2 from then on; one whose model has no version; one whose storage fails.\<close>

definition example_repo :: "string ReadWriteRepo" where
  "example_repo n c ident =
    (if n = 0 then (None, Some (RepoError ErrModelNotFound (namespace c)))
     else (Some (Versioned ''guest list'' 2), None))"

definition unversioned_repo :: "string ReadWriteRepo" where
  "unversioned_repo n c ident = (Some (Unversioned ''guest list''), None)"

definition failing_repo :: "string ReadWriteRepo" where
  "failing_repo n c ident = (None, Some (OtherError ''connection lost''))"

text \<open>One whose storage failure comes wrapped in a \<^verbatim>\<open>RepoError\<close>.\<close>

definition storage_error_repo :: "string ReadWriteRepo" where
  "storage_error_repo n c ident =
    (None, Some (RepoError (OtherError ''connection lost'') (namespace c)))"

text \<open>A chain: a decorator of another kind around two version repositories around a
  concrete store.\<close>

definition example_chain :: "nat ReadRepo" where
  "example_chain = OtherRepo 1 (VersionRepo 2 (VersionRepo 3 (OtherRepo 4 NilRepo)))"

text \<open>MongoDB repositories holding one document: a healthy one, one whose storage has a
  fault, and one on which \<^verbatim>\<open>SetModel\<close> was never called.\<close>

definition healthy_repository :: "string ReadRepository" where
  "healthy_repository =
    \<lparr>session = \<lparr>documents = [''id1'' \<mapsto> ''guest list''], fault = None\<rparr>,
     factory = Some (\<lambda>u. [])\<rparr>"

definition faulty_repository :: "string ReadRepository" where
  "faulty_repository =
    \<lparr>session = \<lparr>documents = [''id1'' \<mapsto> ''guest list''], fault = Some ''i/o timeout''\<rparr>,
     factory = Some (\<lambda>u. [])\<rparr>"

definition empty_repository :: "string ReadRepository" where
  "empty_repository =
    \<lparr>session = \<lparr>documents = Map.empty, fault = None\<rparr>, factory = Some (\<lambda>u. [])\<rparr>"

section \<open>Lemmas about the loop\<close>

lemma advance_0: "advance w 0 = w"
  by (simp add: advance_def)

lemma advance_sel: "calls (advance w k) = calls w + k" "waits (advance w k) = waits w + k"
  by (simp_all add: advance_def)

lemma findMinVersion_world:
  "snd (findMinVersion r c ident M w) = w\<lparr>calls := calls w + 1\<rparr>"
  by (simp add: findMinVersion_def ReadWriteRepo_Find_def split: option.splits prod.splits)

lemma findMinVersion_error_nil:
  "findMinVersion r c ident M w = ((m, Some e), w1) \<Longrightarrow> m = None"
  by (auto simp add: findMinVersion_def ReadWriteRepo_Find_def split: option.splits prod.splits if_splits)

lemma loop_body_Continue:
  assumes "findMinVersion r c ident M w = ((m, e), w1)" "retryable e" "deadline_set c"
    "\<not> done_first c (waits w)"
  shows "loop_body r c ident M w = Continue (w\<lparr>calls := calls w + 1, waits := waits w + 1\<rparr>)"
proof -
  from findMinVersion_world [of r c ident M w] assms(1) have "w1 = w\<lparr>calls := calls w + 1\<rparr>" by simp
  with assms show ?thesis by (simp add: loop_body_def)
qed

lemma loop_body_not_Break: "loop_body r c ident M w \<noteq> Break w1"
  by (simp add: loop_body_def split: prod.splits)

lemma for_loop_final:
  assumes "for_loop body w = Some x"
  shows "\<exists>w0. body w0 = (case x of Inl y \<Rightarrow> Return y | Inr w1 \<Rightarrow> Break w1)"
proof (rule for_loop.raw_induct
    [where P = "\<lambda>b w x. \<exists>w0. b w0 = (case x of Inl y \<Rightarrow> Return y | Inr w1 \<Rightarrow> Break w1)",
      OF _ assms])
  fix f :: "(world \<Rightarrow> 'a outcome) \<Rightarrow> world \<Rightarrow> ('a + world) option"
  fix b :: "world \<Rightarrow> 'a outcome" and v :: world and z :: "'a + world"
  assume IH: "\<And>b v z. f b v = Some z \<Longrightarrow>
      \<exists>w0. b w0 = (case z of Inl y \<Rightarrow> Return y | Inr w1 \<Rightarrow> Break w1)"
  assume step: "(case b v of Return x \<Rightarrow> Some (Inl x) | Continue w1 \<Rightarrow> f b w1
      | Break w1 \<Rightarrow> Some (Inr w1)) = Some z"
  show "\<exists>w0. b w0 = (case z of Inl y \<Rightarrow> Return y | Inr w1 \<Rightarrow> Break w1)"
  proof (cases "b v")
    case (Return y)
    with step have "z = Inl y" by simp
    with Return show ?thesis by auto
  next
    case (Continue w1)
    with step have "f b w1 = Some z" by simp
    then show ?thesis by (rule IH)
  next
    case (Break w1)
    with step have "z = Inr w1" by simp
    with Break show ?thesis by auto
  qed
qed

lemma for_loop_retries:
  assumes "\<forall>j<k. body (advance w j) = Continue (advance w (Suc j))"
  shows "for_loop body w = for_loop body (advance w k)"
  using assms
proof (induction k)
  case 0
  show ?case by (simp add: advance_0)
next
  case (Suc k)
  then have "for_loop body w = for_loop body (advance w k)" by simp
  also have "\<dots> = for_loop body (advance w (Suc k))"
    using Suc.prems by (subst for_loop.simps) simp
  finally show ?case .
qed

lemma Find_gated:
  assumes "min_version c = (M, True)" "1 \<le> M"
  shows "Find r c ident w =
    (case for_loop (loop_body r c ident M) w of
        None \<Rightarrow> None
      | Some (Inl x) \<Rightarrow> Some x
      | Some (Inr w1) \<Rightarrow>
          Some ((None, Some (RepoError ErrModelNotFound (namespace c))), Fallback, w1))"
  using assms by (simp add: Find_def)

lemma Find_gated_Some:
  assumes "min_version c = (M, True)" "1 \<le> M" "Find r c ident w = Some x"
  shows "\<exists>w0. loop_body r c ident M w0 = Return x"
proof -
  from assms have f: "(case for_loop (loop_body r c ident M) w of
        None \<Rightarrow> None
      | Some (Inl x) \<Rightarrow> Some x
      | Some (Inr w1) \<Rightarrow>
          Some ((None, Some (RepoError ErrModelNotFound (namespace c))), Fallback, w1)) = Some x"
    by (simp add: Find_gated)
  then obtain z where z: "for_loop (loop_body r c ident M) w = Some z"
    by (cases "for_loop (loop_body r c ident M) w") auto
  from for_loop_final [OF z] obtain w0 where
    w0: "loop_body r c ident M w0 = (case z of Inl y \<Rightarrow> Return y | Inr w1 \<Rightarrow> Break w1)" ..
  show ?thesis
  proof (cases z)
    case (Inl y)
    with f z have "y = x" by simp
    with w0 Inl show ?thesis by auto
  next
    case (Inr w1)
    with w0 have "loop_body r c ident M w0 = Break w1" by simp
    then show ?thesis by (simp add: loop_body_not_Break)
  qed
qed

lemma Find_first_Return:
  assumes "min_version c = (M, True)" "1 \<le> M" "loop_body r c ident M w = Return x"
  shows "Find r c ident w = Some x"
  using assms by (subst Find_gated [OF assms(1,2)], subst for_loop.simps) simp

lemma Find_first_Continue:
  assumes "min_version c = (M, True)" "1 \<le> M" "loop_body r c ident M w = Continue w1"
  shows "Find r c ident w = Find r c ident w1"
  using assms
  by (simp only: Find_gated [OF assms(1,2)], subst for_loop.simps) simp

lemma loop_body_Return_cases:
  assumes "loop_body r c ident M w0 = Return (res, ex, w1)"
  shows "(ex = Success \<and> snd res = None \<and> (res, w1) = findMinVersion r c ident M w0)
    \<or> (ex = RealError \<and> fst res = None \<and> snd res \<noteq> None \<and> \<not> retryable (snd res)
        \<and> (res, w1) = findMinVersion r c ident M w0)
    \<or> (ex = NoDeadline \<and> \<not> deadline_set c \<and> retryable (snd res)
        \<and> (res, w1) = findMinVersion r c ident M w0)
    \<or> (ex = Cancelled \<and> deadline_set c \<and> res = (None, Some (ctx_Err (ended c)))
        \<and> retryable (snd (fst (findMinVersion r c ident M w0))))"
proof -
  obtain m e w2 where f: "findMinVersion r c ident M w0 = ((m, e), w2)"
    by (metis surj_pair)
  with assms show ?thesis
    by (cases "retryable e"; cases "deadline_set c"; cases "done_first c (waits w2)"; cases "e = None")
       (auto simp add: loop_body_def dest: findMinVersion_error_nil)
qed

text \<open>Two runs of \<open>Find\<close> on the example inputs, computed from the definitions.\<close>

lemma example_Find:
  "Find example_repo example_ctx ''x'' world0 =
    Some ((None, Some DeadlineExceeded), Cancelled, \<lparr>calls = 2, waits = 2\<rparr>)"
proof -
  let ?body = "loop_body example_repo example_ctx ''x'' 3"
  have a: "?body world0 = Continue \<lparr>calls = 1, waits = 1\<rparr>"
    by (simp add: loop_body_def findMinVersion_def ReadWriteRepo_Find_def example_repo_def
        example_ctx_def world0_def)
  have b: "?body \<lparr>calls = 1, waits = 1\<rparr> =
      Return ((None, Some DeadlineExceeded), Cancelled, \<lparr>calls = 2, waits = 2\<rparr>)"
    by (simp add: loop_body_def findMinVersion_def ReadWriteRepo_Find_def example_repo_def
        example_ctx_def)
  have "for_loop ?body world0 = for_loop ?body \<lparr>calls = 1, waits = 1\<rparr>"
    by (subst for_loop.simps) (simp only: a outcome.case)
  also have "\<dots> =
      Some (Inl ((None, Some DeadlineExceeded), Cancelled, \<lparr>calls = 2, waits = 2\<rparr>))"
    by (subst for_loop.simps) (simp only: b outcome.case)
  finally have "for_loop ?body world0 =
      Some (Inl ((None, Some DeadlineExceeded), Cancelled, \<lparr>calls = 2, waits = 2\<rparr>))" .
  moreover have "min_version example_ctx = (3, True)" by (simp add: example_ctx_def)
  ultimately show ?thesis by (simp add: Find_def)
qed

lemma example_Find_no_deadline:
  "Find example_repo no_deadline_ctx ''x'' world0 =
    Some ((None, Some (RepoError ErrModelNotFound ''invitations'')), NoDeadline,
          \<lparr>calls = 1, waits = 0\<rparr>)"
proof -
  let ?body = "loop_body example_repo no_deadline_ctx ''x'' 3"
  have a: "?body world0 = Return ((None, Some (RepoError ErrModelNotFound ''invitations'')),
      NoDeadline, \<lparr>calls = 1, waits = 0\<rparr>)"
    by (simp add: loop_body_def findMinVersion_def ReadWriteRepo_Find_def example_repo_def
        no_deadline_ctx_def world0_def)
  have "for_loop ?body world0 = Some (Inl ((None, Some (RepoError ErrModelNotFound ''invitations'')),
      NoDeadline, \<lparr>calls = 1, waits = 0\<rparr>))"
    by (subst for_loop.simps) (simp only: a outcome.case)
  moreover have "min_version no_deadline_ctx = (3, True)" by (simp add: no_deadline_ctx_def)
  ultimately show ?thesis by (simp add: Find_def)
qed

text \<open>
  Claim C1. When the context carries no minimum version, or one below 1, \<open>Find\<close> delegates
  to the wrapped repository's \<open>Find\<close>: it returns at line 51 with the model and the error
  of that call unchanged, and in the world it leaves the wrapped repository has been
  called exactly once more (and no wait was entered).
\<close>

theorem Find_pass_through:
  assumes "min_version c = (M, ok)" and "\<not> ok \<or> M < 1"
  shows "Find r c ident w =
      Some (fst (ReadWriteRepo_Find r c ident w), PassThrough, w\<lparr>calls := calls w + 1\<rparr>)"
  using assms by (auto simp add: Find_def ReadWriteRepo_Find_def)

theorem Find_pass_through_witness:
  "Find example_repo plain_ctx ''x'' world0 =
    Some ((None, Some (RepoError ErrModelNotFound ''invitations'')), PassThrough,
          \<lparr>calls = 1, waits = 0\<rparr>)"
proof -
  have h1: "min_version plain_ctx = (0, False)" by (simp add: plain_ctx_def)
  have h2: "\<not> False \<or> (0::int) < 1" by simp
  from Find_pass_through [OF h1 h2, of example_repo "''x''" world0]
  show ?thesis
    by (simp add: ReadWriteRepo_Find_def example_repo_def plain_ctx_def world0_def)
qed

text \<open>
  Claim C2. For a minimum version \<open>M \<ge> 1\<close>, \<open>findMinVersion\<close> succeeds exactly when the
  wrapped \<open>Find\<close> returned no error and a versionable model of version at least \<open>M\<close>, and
  then returns that model; it fails with \<open>ErrModelHasNoVersion\<close> when the model is not
  versionable, with \<open>ErrIncorrectModelVersion\<close> when its version is below \<open>M\<close>, and returns
  the wrapped \<open>Find\<close>'s error when there is one.
\<close>

theorem findMinVersion_cases:
  assumes "1 \<le> M" and "ReadWriteRepo_Find r c ident w = ((m, e), w1)"
  shows "(snd (fst (findMinVersion r c ident M w)) = None
        \<longleftrightarrow> e = None \<and> (\<exists>v. versionable m = Some v \<and> M \<le> v))
    \<and> (snd (fst (findMinVersion r c ident M w)) = None
        \<longrightarrow> findMinVersion r c ident M w = ((m, None), w1))
    \<and> (e = None \<and> versionable m = None
        \<longrightarrow> findMinVersion r c ident M w =
            ((None, Some (RepoError ErrModelHasNoVersion (namespace c))), w1))
    \<and> (e = None \<and> (\<exists>v. versionable m = Some v \<and> v < M)
        \<longrightarrow> findMinVersion r c ident M w =
            ((None, Some (RepoError ErrIncorrectModelVersion (namespace c))), w1))
    \<and> (e \<noteq> None \<longrightarrow> findMinVersion r c ident M w = ((None, e), w1))"
  using assms(2) by (auto simp add: findMinVersion_def split: option.splits)

theorem findMinVersion_cases_witness:
  "findMinVersion example_repo example_ctx ''x'' 2 \<lparr>calls = 1, waits = 0\<rparr> =
    ((Some (Versioned ''guest list'' 2), None), \<lparr>calls = 2, waits = 0\<rparr>)"
proof -
  have h1: "(1::int) \<le> 2" by simp
  have h2: "ReadWriteRepo_Find example_repo example_ctx ''x'' \<lparr>calls = 1, waits = 0\<rparr> =
      ((Some (Versioned ''guest list'' 2), None), \<lparr>calls = 2, waits = 0\<rparr>)"
    by (simp add: ReadWriteRepo_Find_def example_repo_def)
  from findMinVersion_cases [OF h1 h2] show ?thesis by simp
qed

lemma findMinVersion_eq:
  "findMinVersion r c ident M w = (fst (findMinVersion r c ident M w), w\<lparr>calls := calls w + 1\<rparr>)"
  by (metis findMinVersion_world prod.collapse)

text \<open>The errors for which the first branch of the loop is taken, written out.\<close>

lemma retryable_iff:
  "retryable e \<longleftrightarrow>
    (\<exists>ns. e = Some (RepoError ErrIncorrectModelVersion ns)
        \<or> e = Some (RepoError ErrModelNotFound ns))"
proof (cases e)
  case None
  then show ?thesis by simp
next
  case (Some x)
  then show ?thesis by (cases x) auto
qed

text \<open>
  Claim C3. With a minimum version \<open>M \<ge> 1\<close>, let \<open>e\<close> be the error of an attempt
  (\<open>findMinVersion\<close>), which is the wrapped repository's own error when it returned one.
  Every error other than a \<open>RepoError\<close> whose \<open>Err\<close> is \<open>ErrIncorrectModelVersion\<close> or
  \<open>ErrModelNotFound\<close> is returned at once, with a nil model, after this single call.
  Whenever the error is not one of those two, or the context has no deadline, \<open>Find\<close> returns
  after this single call. With one of those two errors, a deadline, and the timer firing
  before the context ends, \<open>Find\<close> goes round again.
\<close>

theorem Find_retries_only_retryable:
  assumes "min_version c = (M, True)" and "1 \<le> M"
    and "findMinVersion r c ident M w = ((m, e), w1)"
  shows "calls w1 = calls w + 1
    \<and> (snd (r (calls w) c ident) \<noteq> None \<longrightarrow> e = snd (r (calls w) c ident))
    \<and> (e \<noteq> None
        \<and> (\<forall>ns. e \<noteq> Some (RepoError ErrIncorrectModelVersion ns)
              \<and> e \<noteq> Some (RepoError ErrModelNotFound ns))
        \<longrightarrow> Find r c ident w = Some ((None, e), RealError, w1))
    \<and> ((\<forall>ns. e \<noteq> Some (RepoError ErrIncorrectModelVersion ns)
              \<and> e \<noteq> Some (RepoError ErrModelNotFound ns))
          \<or> \<not> deadline_set c
        \<longrightarrow> (\<exists>res ex. Find r c ident w = Some (res, ex, w1)))
    \<and> ((e = Some (RepoError ErrIncorrectModelVersion ns)
          \<or> e = Some (RepoError ErrModelNotFound ns))
        \<and> deadline_set c \<and> \<not> done_first c (waits w)
        \<longrightarrow> Find r c ident w = Find r c ident (w1\<lparr>waits := waits w + 1\<rparr>))"
proof -
  from findMinVersion_world [of r c ident M w] assms(3)
  have w1: "w1 = w\<lparr>calls := calls w + 1\<rparr>" by simp
  then have a: "calls w1 = calls w + 1" by simp
  have b: "snd (r (calls w) c ident) \<noteq> None \<longrightarrow> e = snd (r (calls w) c ident)"
    using assms(3)
    by (auto simp add: findMinVersion_def ReadWriteRepo_Find_def split: prod.splits)
  have c: "e \<noteq> None
        \<and> (\<forall>ns. e \<noteq> Some (RepoError ErrIncorrectModelVersion ns)
              \<and> e \<noteq> Some (RepoError ErrModelNotFound ns))
        \<longrightarrow> Find r c ident w = Some ((None, e), RealError, w1)"
  proof
    assume h: "e \<noteq> None
        \<and> (\<forall>ns. e \<noteq> Some (RepoError ErrIncorrectModelVersion ns)
              \<and> e \<noteq> Some (RepoError ErrModelNotFound ns))"
    then have "\<not> retryable e" by (simp add: retryable_iff)
    with h assms(3) have "loop_body r c ident M w = Return ((None, e), RealError, w1)"
      by (simp add: loop_body_def)
    then show "Find r c ident w = Some ((None, e), RealError, w1)"
      by (rule Find_first_Return [OF assms(1,2)])
  qed
  have d: "(\<forall>ns. e \<noteq> Some (RepoError ErrIncorrectModelVersion ns)
              \<and> e \<noteq> Some (RepoError ErrModelNotFound ns))
          \<or> \<not> deadline_set c
        \<longrightarrow> (\<exists>res ex. Find r c ident w = Some (res, ex, w1))"
  proof
    assume "(\<forall>ns. e \<noteq> Some (RepoError ErrIncorrectModelVersion ns)
              \<and> e \<noteq> Some (RepoError ErrModelNotFound ns))
          \<or> \<not> deadline_set c"
    then have "\<not> (retryable e \<and> deadline_set c)" by (auto simp add: retryable_iff)
    with assms(3) have "\<exists>res ex. loop_body r c ident M w = Return (res, ex, w1)"
      by (cases "retryable e"; cases "e = None") (simp_all add: loop_body_def)
    then show "\<exists>res ex. Find r c ident w = Some (res, ex, w1)"
      using Find_first_Return [OF assms(1,2)] by blast
  qed
  have e: "(e = Some (RepoError ErrIncorrectModelVersion ns)
          \<or> e = Some (RepoError ErrModelNotFound ns))
        \<and> deadline_set c \<and> \<not> done_first c (waits w)
        \<longrightarrow> Find r c ident w = Find r c ident (w1\<lparr>waits := waits w + 1\<rparr>)"
  proof
    assume h: "(e = Some (RepoError ErrIncorrectModelVersion ns)
          \<or> e = Some (RepoError ErrModelNotFound ns))
        \<and> deadline_set c \<and> \<not> done_first c (waits w)"
    then have "retryable e" by (auto simp add: retryable_iff)
    with h assms(3) w1 have "loop_body r c ident M w = Continue (w1\<lparr>waits := waits w + 1\<rparr>)"
      by (simp add: loop_body_def)
    then show "Find r c ident w = Find r c ident (w1\<lparr>waits := waits w + 1\<rparr>)"
      by (rule Find_first_Continue [OF assms(1,2)])
  qed
  from a b c d e show ?thesis by blast
qed

theorem Find_retries_only_retryable_witness:
  "Find failing_repo example_ctx ''x'' world0 =
      Some ((None, Some (OtherError ''connection lost'')), RealError, \<lparr>calls = 1, waits = 0\<rparr>)
   \<and> Find storage_error_repo example_ctx ''x'' world0 =
      Some ((None, Some (RepoError (OtherError ''connection lost'') ''invitations'')), RealError,
            \<lparr>calls = 1, waits = 0\<rparr>)
   \<and> Find example_repo example_ctx ''x'' world0 =
      Find example_repo example_ctx ''x'' \<lparr>calls = 1, waits = 1\<rparr>"
proof -
  have h1: "min_version example_ctx = (3, True)" by (simp add: example_ctx_def)
  have h2: "(1::int) \<le> 3" by simp
  have f1: "findMinVersion failing_repo example_ctx ''x'' 3 world0 =
      ((None, Some (OtherError ''connection lost'')), \<lparr>calls = 1, waits = 0\<rparr>)"
    by (simp add: findMinVersion_def ReadWriteRepo_Find_def failing_repo_def world0_def)
  have f2: "findMinVersion storage_error_repo example_ctx ''x'' 3 world0 =
      ((None, Some (RepoError (OtherError ''connection lost'') ''invitations'')),
       \<lparr>calls = 1, waits = 0\<rparr>)"
    by (simp add: findMinVersion_def ReadWriteRepo_Find_def storage_error_repo_def world0_def
        example_ctx_def)
  have f3: "findMinVersion example_repo example_ctx ''x'' 3 world0 =
      ((None, Some (RepoError ErrModelNotFound ''invitations'')), \<lparr>calls = 1, waits = 0\<rparr>)"
    by (simp add: findMinVersion_def ReadWriteRepo_Find_def example_repo_def world0_def
        example_ctx_def)
  have d: "deadline_set example_ctx" "\<not> done_first example_ctx (waits world0)"
    by (simp_all add: example_ctx_def world0_def)
  from Find_retries_only_retryable [OF h1 h2 f1]
  have a: "Find failing_repo example_ctx ''x'' world0 =
      Some ((None, Some (OtherError ''connection lost'')), RealError, \<lparr>calls = 1, waits = 0\<rparr>)"
    by simp
  from Find_retries_only_retryable [OF h1 h2 f2]
  have b: "Find storage_error_repo example_ctx ''x'' world0 =
      Some ((None, Some (RepoError (OtherError ''connection lost'') ''invitations'')), RealError,
            \<lparr>calls = 1, waits = 0\<rparr>)"
    by simp
  from Find_retries_only_retryable [OF h1 h2 f3, of "''invitations''"] d
  have "Find example_repo example_ctx ''x'' world0 =
      Find example_repo example_ctx ''x'' (\<lparr>calls = 1, waits = 0\<rparr>\<lparr>waits := waits world0 + 1\<rparr>)"
    by simp
  then have c: "Find example_repo example_ctx ''x'' world0 =
      Find example_repo example_ctx ''x'' \<lparr>calls = 1, waits = 1\<rparr>"
    by (simp add: world0_def)
  from a b c show ?thesis by blast
qed

text \<open>
  Claim C4. With a minimum version \<open>M \<ge> 1\<close> and no deadline, \<open>Find\<close> calls the wrapped
  repository exactly once and returns the result of that single attempt:
  \<open>ErrIncorrectModelVersion\<close> when the model's version is below \<open>M\<close>, and the wrapped
  repository's \<open>ErrModelNotFound\<close> when the model is absent.
\<close>

theorem Find_no_deadline_single_attempt:
  assumes "min_version c = (M, True)" and "1 \<le> M" and "\<not> deadline_set c"
  shows "(\<exists>ex. Find r c ident w =
        Some (fst (findMinVersion r c ident M w), ex, w\<lparr>calls := calls w + 1\<rparr>))
    \<and> (\<forall>m v. r (calls w) c ident = (m, None) \<and> versionable m = Some v \<and> v < M \<longrightarrow>
        Find r c ident w =
          Some ((None, Some (RepoError ErrIncorrectModelVersion (namespace c))), NoDeadline,
                w\<lparr>calls := calls w + 1\<rparr>))
    \<and> (\<forall>m ns. r (calls w) c ident = (m, Some (RepoError ErrModelNotFound ns)) \<longrightarrow>
        Find r c ident w =
          Some ((None, Some (RepoError ErrModelNotFound ns)), NoDeadline,
                w\<lparr>calls := calls w + 1\<rparr>))"
proof -
  let ?w1 = "w\<lparr>calls := calls w + 1\<rparr>"
  obtain m e where f: "findMinVersion r c ident M w = ((m, e), ?w1)"
    by (metis findMinVersion_eq surj_pair)
  have a: "\<exists>ex. Find r c ident w = Some ((m, e), ex, ?w1)"
  proof -
    from f assms(3) have "\<exists>ex. loop_body r c ident M w = Return ((m, e), ex, ?w1)"
      by (cases "retryable e"; cases "e = None")
         (auto simp add: loop_body_def dest: findMinVersion_error_nil)
    then show ?thesis using Find_first_Return [OF assms(1,2)] by blast
  qed
  have b: "Find r c ident w =
          Some ((None, Some (RepoError ErrIncorrectModelVersion (namespace c))), NoDeadline, ?w1)"
    if "r (calls w) c ident = (m0, None)" "versionable m0 = Some v" "v < M" for m0 v
  proof -
    from that have "loop_body r c ident M w =
        Return ((None, Some (RepoError ErrIncorrectModelVersion (namespace c))), NoDeadline, ?w1)"
      using assms(3) by (simp add: loop_body_def findMinVersion_def ReadWriteRepo_Find_def)
    then show ?thesis by (rule Find_first_Return [OF assms(1,2)])
  qed
  have c: "Find r c ident w = Some ((None, Some (RepoError ErrModelNotFound ns)), NoDeadline, ?w1)"
    if "r (calls w) c ident = (m0, Some (RepoError ErrModelNotFound ns))" for m0 ns
  proof -
    from that have "loop_body r c ident M w =
        Return ((None, Some (RepoError ErrModelNotFound ns)), NoDeadline, ?w1)"
      using assms(3) by (simp add: loop_body_def findMinVersion_def ReadWriteRepo_Find_def)
    then show ?thesis by (rule Find_first_Return [OF assms(1,2)])
  qed
  from a f b c show ?thesis by auto
qed

theorem Find_no_deadline_single_attempt_witness:
  "Find example_repo no_deadline_ctx ''x'' \<lparr>calls = 1, waits = 0\<rparr> =
    Some ((None, Some (RepoError ErrIncorrectModelVersion ''invitations'')), NoDeadline,
          \<lparr>calls = 2, waits = 0\<rparr>)"
proof -
  have h1: "min_version no_deadline_ctx = (3, True)" by (simp add: no_deadline_ctx_def)
  have h2: "(1::int) \<le> 3" by simp
  have h3: "\<not> deadline_set no_deadline_ctx" by (simp add: no_deadline_ctx_def)
  have ns: "namespace no_deadline_ctx = ''invitations''" by (simp add: no_deadline_ctx_def)
  have v: "example_repo (calls \<lparr>calls = 1, waits = 0\<rparr>) no_deadline_ctx ''x'' =
      (Some (Versioned ''guest list'' 2), None)
    \<and> versionable (Some (Versioned ''guest list'' 2)) = Some 2 \<and> (2::int) < 3"
    by (simp add: example_repo_def)
  from Find_no_deadline_single_attempt [OF h1 h2 h3, of example_repo "''x''" "\<lparr>calls = 1, waits = 0\<rparr>"]
  have "\<forall>m v. example_repo (calls \<lparr>calls = 1, waits = 0\<rparr>) no_deadline_ctx ''x'' = (m, None)
        \<and> versionable m = Some v \<and> v < 3 \<longrightarrow>
      Find example_repo no_deadline_ctx ''x'' \<lparr>calls = 1, waits = 0\<rparr> =
        Some ((None, Some (RepoError ErrIncorrectModelVersion (namespace no_deadline_ctx))),
              NoDeadline, \<lparr>calls = 1, waits = 0\<rparr>\<lparr>calls := calls \<lparr>calls = 1, waits = 0\<rparr> + 1\<rparr>)"
    by blast
  with v have "Find example_repo no_deadline_ctx ''x'' \<lparr>calls = 1, waits = 0\<rparr> =
        Some ((None, Some (RepoError ErrIncorrectModelVersion (namespace no_deadline_ctx))),
              NoDeadline, \<lparr>calls = 1, waits = 0\<rparr>\<lparr>calls := calls \<lparr>calls = 1, waits = 0\<rparr> + 1\<rparr>)"
    by blast
  with ns show ?thesis by simp
qed

text \<open>
  Claim C5. With a minimum version \<open>M \<ge> 1\<close>, when the wrapped repository returns a model
  that is not versionable, \<open>Find\<close> fails with \<open>ErrModelHasNoVersion\<close> after that first call,
  with or without a deadline (there is no assumption on \<open>deadline_set\<close>), and does not
  retry.
\<close>

theorem Find_model_has_no_version:
  assumes "min_version c = (M, True)" and "1 \<le> M"
    and "r (calls w) c ident = (m, None)" and "versionable m = None"
  shows "Find r c ident w =
    Some ((None, Some (RepoError ErrModelHasNoVersion (namespace c))), RealError,
          w\<lparr>calls := calls w + 1\<rparr>)"
proof -
  from assms(3,4) have "loop_body r c ident M w =
      Return ((None, Some (RepoError ErrModelHasNoVersion (namespace c))), RealError,
              w\<lparr>calls := calls w + 1\<rparr>)"
    by (simp add: loop_body_def findMinVersion_def ReadWriteRepo_Find_def)
  then show ?thesis by (rule Find_first_Return [OF assms(1,2)])
qed

theorem Find_model_has_no_version_witness:
  "Find unversioned_repo example_ctx ''x'' world0 =
    Some ((None, Some (RepoError ErrModelHasNoVersion ''invitations'')), RealError,
          \<lparr>calls = 1, waits = 0\<rparr>)"
proof -
  have h1: "min_version example_ctx = (3, True)" by (simp add: example_ctx_def)
  have h2: "(1::int) \<le> 3" by simp
  have h3: "unversioned_repo (calls world0) example_ctx ''x'' = (Some (Unversioned ''guest list''), None)"
    by (simp add: unversioned_repo_def)
  have h4: "versionable (Some (Unversioned ''guest list'')) = None" by simp
  from Find_model_has_no_version
    [of example_ctx 3 unversioned_repo world0 "''x''" "Some (Unversioned ''guest list'')",
      OF h1 h2 h3 h4]
  show ?thesis
    by (simp add: example_ctx_def world0_def)
qed

text \<open>
  Claim C6. With a minimum version \<open>M \<ge> 1\<close> and a deadline: if the attempts \<open>0..k\<close> all
  fail with a wrong version or a missing model, the timer fires first in the waits before
  the \<open>k\<close>-th, and the context ends during the \<open>k\<close>-th wait, then \<open>Find\<close> returns the
  context's error (\<open>Canceled\<close> or \<open>DeadlineExceeded\<close>, neither of which is a version or
  not-found error) after \<open>k + 1\<close> calls, with no further attempt.
\<close>

theorem Find_cancelled_during_wait:
  assumes "min_version c = (M, True)" and "1 \<le> M" and "deadline_set c"
    and "\<forall>j\<le>k. retryable (snd (fst (findMinVersion r c ident M (advance w j))))"
    and "\<forall>j<k. \<not> done_first c (waits w + j)"
    and "done_first c (waits w + k)"
  shows "Find r c ident w = Some ((None, Some (ctx_Err (ended c))), Cancelled, advance w (Suc k))
    \<and> (ctx_Err (ended c) = Canceled \<or> ctx_Err (ended c) = DeadlineExceeded)
    \<and> \<not> retryable (Some (ctx_Err (ended c)))"
proof -
  let ?body = "loop_body r c ident M"
  have step: "?body (advance w j) = Continue (advance w (Suc j))" if "j < k" for j
  proof -
    obtain m e where f: "findMinVersion r c ident M (advance w j) =
        ((m, e), (advance w j)\<lparr>calls := calls (advance w j) + 1\<rparr>)"
      by (metis findMinVersion_eq surj_pair)
    from that assms(4) f have "retryable e" by (metis fst_conv snd_conv less_imp_le)
    moreover from that assms(5) have "\<not> done_first c (waits (advance w j))"
      by (simp add: advance_sel)
    ultimately have "?body (advance w j) =
        Continue ((advance w j)\<lparr>calls := calls (advance w j) + 1, waits := waits (advance w j) + 1\<rparr>)"
      using f assms(3) by (intro loop_body_Continue) auto
    then show ?thesis by (simp add: advance_def)
  qed
  have last: "?body (advance w k) =
      Return ((None, Some (ctx_Err (ended c))), Cancelled, advance w (Suc k))"
  proof -
    obtain m e where f: "findMinVersion r c ident M (advance w k) =
        ((m, e), (advance w k)\<lparr>calls := calls (advance w k) + 1\<rparr>)"
      by (metis findMinVersion_eq surj_pair)
    from assms(4) f have "retryable e" by (metis fst_conv snd_conv le_refl)
    with f assms(3,6) show ?thesis
      by (simp add: loop_body_def advance_def)
  qed
  have "for_loop ?body w = for_loop ?body (advance w k)"
    using step by (intro for_loop_retries) blast
  also have "\<dots> = Some (Inl ((None, Some (ctx_Err (ended c))), Cancelled, advance w (Suc k)))"
    using last by (subst for_loop.simps) simp
  finally have "Find r c ident w =
      Some ((None, Some (ctx_Err (ended c))), Cancelled, advance w (Suc k))"
    by (simp add: Find_gated [OF assms(1,2)])
  moreover have "ctx_Err (ended c) = Canceled \<or> ctx_Err (ended c) = DeadlineExceeded"
    by (cases "ended c") simp_all
  moreover from this have "\<not> retryable (Some (ctx_Err (ended c)))" by auto
  ultimately show ?thesis by blast
qed

theorem Find_cancelled_during_wait_witness:
  "Find example_repo example_ctx ''x'' world0 =
    Some ((None, Some DeadlineExceeded), Cancelled, \<lparr>calls = 2, waits = 2\<rparr>)"
proof -
  have h4: "\<forall>j\<le>1. retryable (snd (fst (findMinVersion example_repo example_ctx ''x'' 3 (advance world0 j))))"
  proof (intro allI impI)
    fix j :: nat assume "j \<le> 1"
    then have "j = 0 \<or> j = 1" by auto
    then show "retryable (snd (fst (findMinVersion example_repo example_ctx ''x'' 3 (advance world0 j))))"
      by (auto simp add: advance_def world0_def findMinVersion_def ReadWriteRepo_Find_def
          example_repo_def example_ctx_def)
  qed
  have h5: "\<forall>j<1. \<not> done_first example_ctx (waits world0 + j)"
    by (simp add: example_ctx_def world0_def)
  have h6: "done_first example_ctx (waits world0 + 1)"
    by (simp add: example_ctx_def)
  have h1: "min_version example_ctx = (3, True)" and h3: "deadline_set example_ctx"
    and e: "ended example_ctx = CtxDeadlineExceeded"
    by (simp_all add: example_ctx_def)
  from Find_cancelled_during_wait [OF h1 _ h3 h4 h5 h6] e
  show ?thesis by (simp add: advance_def world0_def)
qed

text \<open>
  Claim C8. \<open>Find\<close> never returns from the statement after the loop (line 84). With a
  minimum version \<open>M \<ge> 1\<close> every return of \<open>Find\<close> is one of: success (no error);
  an error that is not retried (with a nil model); the single attempt without a deadline;
  the context's error with a deadline.
\<close>

theorem Find_exits:
  "Find r c ident w \<noteq> Some (res, Fallback, w1)
   \<and> (\<forall>M. min_version c = (M, True) \<and> 1 \<le> M \<and> Find r c ident w = Some (res, ex, w1) \<longrightarrow>
        (ex = Success \<and> snd res = None)
      \<or> (ex = RealError \<and> fst res = None \<and> snd res \<noteq> None \<and> \<not> retryable (snd res))
      \<or> (ex = NoDeadline \<and> \<not> deadline_set c \<and> retryable (snd res))
      \<or> (ex = Cancelled \<and> deadline_set c \<and> res = (None, Some (ctx_Err (ended c)))))"
proof -
  have gated: "(ex' = Success \<and> snd res = None)
      \<or> (ex' = RealError \<and> fst res = None \<and> snd res \<noteq> None \<and> \<not> retryable (snd res))
      \<or> (ex' = NoDeadline \<and> \<not> deadline_set c \<and> retryable (snd res))
      \<or> (ex' = Cancelled \<and> deadline_set c \<and> res = (None, Some (ctx_Err (ended c))))"
    if "min_version c = (M, True)" "1 \<le> M" "Find r c ident w = Some (res, ex', w1)" for M ex'
  proof -
    from Find_gated_Some [OF that] obtain w0 where
      "loop_body r c ident M w0 = Return (res, ex', w1)" ..
    from loop_body_Return_cases [OF this] show ?thesis by blast
  qed
  have "Find r c ident w \<noteq> Some (res, Fallback, w1)"
  proof (cases "min_version c")
    case (Pair M ok)
    show ?thesis
    proof (cases "\<not> ok \<or> M < 1")
      case True
      with Pair show ?thesis by (auto simp add: Find_def split: prod.splits)
    next
      case False
      with Pair have "min_version c = (M, True)" "1 \<le> M" by auto
      from gated [OF this] show ?thesis by auto
    qed
  qed
  with gated show ?thesis by blast
qed

theorem Find_exits_witness:
  "Find example_repo example_ctx ''x'' world0 =
      Some ((None, Some DeadlineExceeded), Cancelled, \<lparr>calls = 2, waits = 2\<rparr>)
    \<and> deadline_set example_ctx
    \<and> (None, Some DeadlineExceeded) = (None :: string model option, Some (ctx_Err (ended example_ctx)))"
proof -
  have h1: "min_version example_ctx = (3, True)" by (simp add: example_ctx_def)
  have h2: "(1::int) \<le> 3" by simp
  from Find_exits [of example_repo example_ctx "''x''" world0 "(None, Some DeadlineExceeded)"
      "\<lparr>calls = 2, waits = 2\<rparr>" Cancelled] h1 h2 example_Find
  show ?thesis by auto
qed

text \<open>
  Claim C10. With a minimum version \<open>M \<ge> 1\<close>, whenever \<open>Find\<close> returns an error, the model
  it returns with it is nil, on every path, the one without a deadline included.
\<close>

theorem Find_error_has_nil_model:
  assumes "min_version c = (M, True)" and "1 \<le> M"
    and "Find r c ident w = Some ((m, Some e), ex, w1)"
  shows "m = None"
proof -
  from Find_gated_Some [OF assms] obtain w0 where
    "loop_body r c ident M w0 = Return ((m, Some e), ex, w1)" ..
  from loop_body_Return_cases [OF this] show ?thesis
    by (auto dest: findMinVersion_error_nil [OF sym])
qed

theorem Find_error_has_nil_model_witness:
  "Find example_repo no_deadline_ctx ''x'' world0 =
      Some ((None, Some (RepoError ErrModelNotFound ''invitations'')), NoDeadline,
            \<lparr>calls = 1, waits = 0\<rparr>)
    \<and> fst (fst (the (Find example_repo no_deadline_ctx ''x'' world0))) = None"
proof -
  have h1: "min_version no_deadline_ctx = (3, True)" by (simp add: no_deadline_ctx_def)
  have h2: "(1::int) \<le> 3" by simp
  obtain m e ex w1 where f: "Find example_repo no_deadline_ctx ''x'' world0 = Some ((m, Some e), ex, w1)"
    using example_Find_no_deadline by blast
  from Find_error_has_nil_model [OF h1 h2 f] have "m = None" .
  with f example_Find_no_deadline show ?thesis by simp
qed

section \<open>The chain walker\<close>

lemma Parent_funpow_Nil: "(Parent ^^ n) NilRepo = NilRepo"
  by (induction n) simp_all

lemma Repository_None_iff:
  "Repository c = None \<longleftrightarrow> (\<forall>n. \<not> is_version_repo ((Parent ^^ n) c))"
proof (induction c)
  case NilRepo
  show ?case by (simp add: Parent_funpow_Nil)
next
  case (VersionRepo a p)
  have "is_version_repo ((Parent ^^ 0) (VersionRepo a p))" by simp
  then show ?case by (metis Repository.simps(2) option.distinct(1))
next
  case (OtherRepo a p)
  have "(\<forall>n. \<not> is_version_repo ((Parent ^^ n) (OtherRepo a p))) \<longleftrightarrow> (\<forall>n. \<not> is_version_repo ((Parent ^^ n) p))"
  proof
    assume h: "\<forall>n. \<not> is_version_repo ((Parent ^^ n) (OtherRepo a p))"
    show "\<forall>n. \<not> is_version_repo ((Parent ^^ n) p)"
    proof
      fix n from h have "\<not> is_version_repo ((Parent ^^ Suc n) (OtherRepo a p))" by blast
      then show "\<not> is_version_repo ((Parent ^^ n) p)" by (simp add: funpow_swap1)
    qed
  next
    assume h: "\<forall>n. \<not> is_version_repo ((Parent ^^ n) p)"
    show "\<forall>n. \<not> is_version_repo ((Parent ^^ n) (OtherRepo a p))"
    proof
      fix n show "\<not> is_version_repo ((Parent ^^ n) (OtherRepo a p))"
      proof (cases n)
        case 0 then show ?thesis by simp
      next
        case (Suc m) with h show ?thesis by (simp add: funpow_swap1)
      qed
    qed
  qed
  with OtherRepo show ?case by simp
qed

lemma Repository_Some_iff:
  "Repository c = Some g \<longleftrightarrow>
    (\<exists>n. (Parent ^^ n) c = g \<and> is_version_repo g \<and> (\<forall>k<n. \<not> is_version_repo ((Parent ^^ k) c)))"
proof (induction c)
  case NilRepo
  show ?case by (auto simp add: Parent_funpow_Nil)
next
  case (VersionRepo a p)
  show ?case
  proof
    assume "Repository (VersionRepo a p) = Some g"
    then have "g = VersionRepo a p" by simp
    then have "(Parent ^^ 0) (VersionRepo a p) = g \<and> is_version_repo g \<and> (\<forall>k<0. \<not> is_version_repo ((Parent ^^ k) (VersionRepo a p)))" by simp
    then show "\<exists>n. (Parent ^^ n) (VersionRepo a p) = g \<and> is_version_repo g \<and> (\<forall>k<n. \<not> is_version_repo ((Parent ^^ k) (VersionRepo a p)))" by blast
  next
    assume "\<exists>n. (Parent ^^ n) (VersionRepo a p) = g \<and> is_version_repo g \<and> (\<forall>k<n. \<not> is_version_repo ((Parent ^^ k) (VersionRepo a p)))"
    then obtain n where n: "(Parent ^^ n) (VersionRepo a p) = g" "\<forall>k<n. \<not> is_version_repo ((Parent ^^ k) (VersionRepo a p))" by blast
    have "n = 0"
    proof (rule ccontr)
      assume "n \<noteq> 0" then have "0 < n" by simp
      with n(2) have "\<not> is_version_repo ((Parent ^^ 0) (VersionRepo a p))" by blast
      then show False by simp
    qed
    with n(1) have "g = VersionRepo a p" by simp
    then show "Repository (VersionRepo a p) = Some g" by simp
  qed
next
  case (OtherRepo a p)
  let ?o = "OtherRepo a p"
  have "(\<exists>n. (Parent ^^ n) ?o = g \<and> is_version_repo g \<and> (\<forall>k<n. \<not> is_version_repo ((Parent ^^ k) ?o)))
    \<longleftrightarrow> (\<exists>n. (Parent ^^ n) p = g \<and> is_version_repo g \<and> (\<forall>k<n. \<not> is_version_repo ((Parent ^^ k) p)))"
    (is "?L \<longleftrightarrow> ?R")
  proof
    assume ?L
    then obtain n where n: "(Parent ^^ n) ?o = g" "is_version_repo g" "\<forall>k<n. \<not> is_version_repo ((Parent ^^ k) ?o)" by blast
    from n(1,2) have "n \<noteq> 0" by (cases n) auto
    then obtain m where m: "n = Suc m" by (cases n) auto
    from n(1) m have a: "(Parent ^^ m) p = g" by (simp add: funpow_swap1)
    have "\<forall>k<m. \<not> is_version_repo ((Parent ^^ k) p)"
    proof (intro allI impI)
      fix k assume "k < m" then have "Suc k < n" using m by simp
      with n(3) have "\<not> is_version_repo ((Parent ^^ Suc k) ?o)" by blast
      then show "\<not> is_version_repo ((Parent ^^ k) p)" by (simp add: funpow_swap1)
    qed
    with a n(2) show ?R by blast
  next
    assume ?R
    then obtain m where m: "(Parent ^^ m) p = g" "is_version_repo g" "\<forall>k<m. \<not> is_version_repo ((Parent ^^ k) p)" by blast
    have a: "(Parent ^^ Suc m) ?o = g" using m(1) by (simp add: funpow_swap1)
    have "\<forall>k<Suc m. \<not> is_version_repo ((Parent ^^ k) ?o)"
    proof (intro allI impI)
      fix k assume k: "k < Suc m"
      show "\<not> is_version_repo ((Parent ^^ k) ?o)"
      proof (cases k)
        case 0 then show ?thesis by simp
      next
        case (Suc j) with k m(3) show ?thesis by (simp add: funpow_swap1)
      qed
    qed
    with a m(2) show ?L by blast
  qed
  with OtherRepo show ?case by simp
qed

text \<open>
  Claim C7. On every chain (finite and without cycles by its type), \<open>Repository\<close> is total:
  it ends at the root. It returns nil for a nil repository; it returns nil exactly when no
  repository reached by following \<open>Parent\<close> is a version repository; and it returns \<open>g\<close>
  exactly when \<open>g\<close> is a version repository reached after some number \<open>n\<close> of \<open>Parent\<close>
  steps with no version repository before it, that is the nearest one.
  (\<open>Parent\<close> of nil is taken as nil here; the walker never asks for it.)
\<close>

theorem Repository_nearest:
  "Repository (NilRepo :: 'a ReadRepo) = None
   \<and> (Repository (c :: 'a ReadRepo) = None \<longleftrightarrow> (\<forall>n. \<not> is_version_repo ((Parent ^^ n) c)))
   \<and> (Repository c = Some g \<longleftrightarrow>
        (\<exists>n. (Parent ^^ n) c = g \<and> is_version_repo g
            \<and> (\<forall>k<n. \<not> is_version_repo ((Parent ^^ k) c))))"
  using Repository_None_iff [of c] Repository_Some_iff [of c g] by simp

theorem Repository_nearest_witness:
  "Repository example_chain = Some (VersionRepo 2 (VersionRepo 3 (OtherRepo 4 NilRepo)))
   \<and> (Parent ^^ 1) example_chain = VersionRepo 2 (VersionRepo 3 (OtherRepo 4 NilRepo))
   \<and> \<not> is_version_repo ((Parent ^^ 0) example_chain)
   \<and> Repository (OtherRepo (4::nat) NilRepo) = None"
proof -
  let ?g = "VersionRepo (2::nat) (VersionRepo 3 (OtherRepo 4 NilRepo))"
  have a: "(Parent ^^ 1) example_chain = ?g" by (simp add: example_chain_def)
  have b: "\<not> is_version_repo ((Parent ^^ 0) example_chain)" by (simp add: example_chain_def)
  have "(Parent ^^ 1) example_chain = ?g \<and> is_version_repo ?g
      \<and> (\<forall>k<1. \<not> is_version_repo ((Parent ^^ k) example_chain))"
    using a b by simp
  then have "\<exists>n. (Parent ^^ n) example_chain = ?g \<and> is_version_repo ?g
      \<and> (\<forall>k<n. \<not> is_version_repo ((Parent ^^ k) example_chain))" by (rule exI)
  with Repository_nearest [of example_chain ?g] have c: "Repository example_chain = Some ?g"
    by blast
  have "\<not> is_version_repo ((Parent ^^ n) (OtherRepo (4::nat) NilRepo))" for n
    by (cases n) (simp_all add: funpow_swap1 Parent_funpow_Nil)
  with Repository_nearest [of "OtherRepo (4::nat) NilRepo" ?g]
  have d: "Repository (OtherRepo (4::nat) NilRepo) = None" by blast
  from a b c d show ?thesis by blast
qed

section \<open>The MongoDB read repository\<close>

text \<open>
  Claim C9, as stated, fails: with a stored model and a failing storage, \<open>Find\<close> returns
  \<open>ErrModelNotFound\<close>, the very result it returns when nothing is stored, not a distinct
  error.
\<close>

theorem ReadRepository_Find_fault_counterexample:
  "documents (session faulty_repository) ''id1'' = Some ''guest list''
   \<and> ReadRepository_Find faulty_repository ''id1'' = (None, Some ErrModelNotFound)
   \<and> ReadRepository_Find faulty_repository ''id1'' = ReadRepository_Find empty_repository ''id1''"
  by (simp add: ReadRepository_Find_def One_def faulty_repository_def empty_repository_def)

text \<open>
  Claim C9, amended. \<open>Find\<close> fails with \<open>ErrModelNotSet\<close> when no model factory is set.
  With a factory set, it returns the stored model when the query succeeds, and fails with
  \<open>ErrModelNotFound\<close> whenever the query fails: when no model is stored for the identifier
  and on any other storage failure alike.
\<close>

theorem ReadRepository_Find_cases:
  "(factory r = None \<longrightarrow> ReadRepository_Find r ident = (None, Some ErrModelNotSet))
   \<and> (factory r \<noteq> None \<and> fault (session r) = None \<and> documents (session r) ident = Some d
        \<longrightarrow> ReadRepository_Find r ident = (Some d, None))
   \<and> (factory r \<noteq> None \<and> (fault (session r) \<noteq> None \<or> documents (session r) ident = None)
        \<longrightarrow> ReadRepository_Find r ident = (None, Some ErrModelNotFound))"
proof (cases "factory r")
  case None
  then show ?thesis by (simp add: ReadRepository_Find_def)
next
  case (Some f)
  show ?thesis
  proof (cases "fault (session r)")
    case None
    with Some show ?thesis
      by (cases "documents (session r) ident") (simp_all add: ReadRepository_Find_def One_def)
  next
    case (Some msg)
    with \<open>factory r = Some f\<close> show ?thesis
      by (simp add: ReadRepository_Find_def One_def)
  qed
qed

theorem ReadRepository_Find_cases_witness:
  "ReadRepository_Find healthy_repository ''id1'' = (Some ''guest list'', None)
   \<and> ReadRepository_Find healthy_repository ''id2'' = (None, Some ErrModelNotFound)
   \<and> ReadRepository_Find (healthy_repository\<lparr>factory := None\<rparr>) ''id1'' = (None, Some ErrModelNotSet)"
proof -
  have f: "factory healthy_repository \<noteq> None" "fault (session healthy_repository) = None"
    "documents (session healthy_repository) ''id1'' = Some ''guest list''"
    "documents (session healthy_repository) ''id2'' = None"
    "factory (healthy_repository\<lparr>factory := None\<rparr>) = None"
    by (simp_all add: healthy_repository_def)
  from ReadRepository_Find_cases [of healthy_repository "''id1''" "''guest list''"] f
  have a: "ReadRepository_Find healthy_repository ''id1'' = (Some ''guest list'', None)" by blast
  from ReadRepository_Find_cases [of healthy_repository "''id2''" "''guest list''"] f
  have b: "ReadRepository_Find healthy_repository ''id2'' = (None, Some ErrModelNotFound)" by blast
  from ReadRepository_Find_cases [of "healthy_repository\<lparr>factory := None\<rparr>" "''id1''" "''guest list''"] f
  have c: "ReadRepository_Find (healthy_repository\<lparr>factory := None\<rparr>) ''id1'' = (None, Some ErrModelNotSet)"
    by blast
  from a b c show ?thesis by blast
qed

end
